theory Spec2Isabelle
  imports Complex_Main
begin

section \<open>The vertiport layout model (vertiport\_model.py)\<close>

text \<open>
  The script builds one mixed-integer linear program, hands it to the solver once and,
  when the solver reports an optimum, decodes the solved values into a grid layout.
  The embedding follows the script line by line: the module constants, the key lists of
  the variable families, every posted constraint as a predicate over the solved values
  (the \<open>.X\<close> attributes), and the extraction loop as a fold.
\<close>

subsection \<open>Module constants (lines 5--26)\<close>

type_synonym cell = "int \<times> int"

definition rows :: int where
  "rows = 5"

definition cols :: int where
  "cols = 8"

text \<open>\<open>cells = [(i, j) for i in range(rows) for j in range(cols)]\<close>\<close>

definition cells :: "cell list" where
  "cells = concat (map (\<lambda>i. map (\<lambda>j. (i, j)) [0..cols - 1]) [0..rows - 1])"

text \<open>The component labels are one-character strings.\<close>

definition components :: "char list" where
  "components = [CHR ''F'', CHR ''S'', CHR ''T'', CHR ''P'']"

text \<open>The dictionary \<open>cost\<close>; a key outside it raises \<open>KeyError\<close> in the script.\<close>

definition cost :: "char \<rightharpoonup> int" where
  "cost = [CHR ''F'' \<mapsto> 40000, CHR ''S'' \<mapsto> 46000, CHR ''T'' \<mapsto> 40000, CHR ''P'' \<mapsto> 300000]"

definition fato_capacity :: int where
  "fato_capacity = 30"

definition stand_capacity :: int where
  "stand_capacity = 6"

definition budget :: int where
  "budget = 2000000"

definition M :: int where
  "M = 1000"

subsection \<open>Variables (lines 32--42)\<close>

text \<open>
  A solved model is the value of every variable. \<open>place\<close> is keyed by
  \<open>(i, j, c)\<close>, \<open>reachable\<close> and \<open>flow_balance\<close> by a cell, \<open>flow\<close> by a pair
  of cells. The values are exact reals: a binary variable is exactly 0 or 1 and a
  constraint holds exactly, without the solver's floating-point tolerances.
\<close>

record assignment =
  place :: "int \<times> int \<times> char \<Rightarrow> real"
  operations :: real
  reachable :: "cell \<Rightarrow> real"
  flow_balance :: "cell \<Rightarrow> real"
  flow :: "cell \<times> cell \<Rightarrow> real"

text \<open>
  The keys of \<open>flow\<close>:
  \<open>[(a, b) for a in cells for b in cells if abs(a[0] - b[0]) + abs(a[1] - b[1]) == 1]\<close>
\<close>

definition flow_keys :: "(cell \<times> cell) list" where
  "flow_keys =
     concat (map (\<lambda>a. map (\<lambda>b. (a, b))
       (filter (\<lambda>b. \<bar>fst a - fst b\<bar> + \<bar>snd a - snd b\<bar> = 1) cells)) cells)"

text \<open>
  The domains of the variables are those of gurobipy's \<open>addVar\<close> and \<open>addVars\<close>: a
  \<open>GRB.BINARY\<close> variable is 0 or 1, and a \<open>GRB.CONTINUOUS\<close> variable created without
  \<open>lb\<close> and \<open>ub\<close> has the default lower bound 0 and no upper bound. The script
  passes neither bound anywhere.
\<close>

definition binary :: "real \<Rightarrow> bool" where
  "binary x \<longleftrightarrow> x = 0 \<or> x = 1"

definition var_domains :: "assignment \<Rightarrow> bool" where
  "var_domains a \<longleftrightarrow>
     list_all (\<lambda>i. list_all (\<lambda>c. binary (place a (fst i, snd i, c))) components) cells \<and>
     0 \<le> operations a \<and>
     list_all (\<lambda>i. binary (reachable a i)) cells \<and>
     list_all (\<lambda>i. 0 \<le> flow_balance a i) cells \<and>
     list_all (\<lambda>k. 0 \<le> flow a k) flow_keys"

subsection \<open>Constraints (lines 47--99)\<close>

text \<open>Lines 48--49: operations cannot exceed FATO or Stand capacity.\<close>

definition con_capacity :: "assignment \<Rightarrow> bool" where
  "con_capacity a \<longleftrightarrow>
     operations a \<le> (real_of_int fato_capacity / 2) *
        sum_list (map (\<lambda>i. place a (fst i, snd i, CHR ''F'')) cells) \<and>
     operations a \<le> real_of_int stand_capacity *
        sum_list (map (\<lambda>i. place a (fst i, snd i, CHR ''S'')) cells)"

text \<open>Line 52: total cost within the budget.\<close>

definition con_budget :: "assignment \<Rightarrow> bool" where
  "con_budget a \<longleftrightarrow>
     sum_list (concat (map (\<lambda>i. map (\<lambda>c.
        real_of_int (the (cost c)) * place a (fst i, snd i, c)) components) cells))
       \<le> real_of_int budget"

text \<open>Lines 55--56: only one component per cell.\<close>

definition con_exclusive :: "assignment \<Rightarrow> bool" where
  "con_exclusive a \<longleftrightarrow>
     list_all (\<lambda>i. sum_list (map (\<lambda>c. place a (fst i, snd i, c)) components) \<le> 1) cells"

text \<open>Lines 59--66.\<close>

definition get_neighbors :: "cell \<Rightarrow> cell list" where
  "get_neighbors i =
     (let x = fst i; y = snd i in
        (if x > 0 then [(x - 1, y)] else []) @
        (if x < rows - 1 then [(x + 1, y)] else []) @
        (if y > 0 then [(x, y - 1)] else []) @
        (if y < cols - 1 then [(x, y + 1)] else []))"

text \<open>Lines 69--73: F, S and P must be next to at least one Taxiway.\<close>

definition con_adjacent :: "assignment \<Rightarrow> bool" where
  "con_adjacent a \<longleftrightarrow>
     list_all (\<lambda>i.
        let neighbors = get_neighbors i;
            taxi = sum_list (map (\<lambda>n. place a (fst n, snd n, CHR ''T'')) neighbors)
        in taxi \<ge> place a (fst i, snd i, CHR ''F'') \<and>
           taxi \<ge> place a (fst i, snd i, CHR ''S'') \<and>
           taxi \<ge> place a (fst i, snd i, CHR ''P'')) cells"

text \<open>Lines 77--78: no FATO on a cell that is off the grid's border.\<close>

definition con_border :: "assignment \<Rightarrow> bool" where
  "con_border a \<longleftrightarrow>
     list_all (\<lambda>i.
        if 0 < fst i \<and> fst i < rows - 1 \<and> 0 < snd i \<and> snd i < cols - 1
        then place a (fst i, snd i, CHR ''F'') = 0 else True) cells"

text \<open>Lines 80--81.\<close>

definition close_cells :: "cell \<Rightarrow> cell list" where
  "close_cells i =
     concat (map (\<lambda>dx. map (\<lambda>dy. (fst i + dx, snd i + dy))
        (filter (\<lambda>dy. \<bar>dx\<bar> + \<bar>dy\<bar> \<le> 2 \<and> 0 \<le> fst i + dx \<and> fst i + dx < rows \<and>
                       0 \<le> snd i + dy \<and> snd i + dy < cols \<and> (dx \<noteq> 0 \<or> dy \<noteq> 0))
           [-2, -1, 0, 1, 2])) [-2, -1, 0, 1, 2])"

text \<open>Lines 82--83: no FATO too close to another.\<close>

definition con_spacing :: "assignment \<Rightarrow> bool" where
  "con_spacing a \<longleftrightarrow>
     list_all (\<lambda>i. list_all (\<lambda>j.
        place a (fst j, snd j, CHR ''F'')
          \<le> (1 - place a (fst i, snd i, CHR ''F'')) * real_of_int M) (close_cells i)) cells"

text \<open>Lines 86--87.\<close>

definition source :: cell where
  "source = (0, 0)"

definition con_source :: "assignment \<Rightarrow> bool" where
  "con_source a \<longleftrightarrow> reachable a source = 1"

text \<open>Lines 91--92; \<open>(j, i) in flow\<close> tests the keys of \<open>flow\<close>.\<close>

definition in_flow :: "assignment \<Rightarrow> cell \<Rightarrow> real" where
  "in_flow a i = sum_list (map (\<lambda>j. flow a (j, i)) (filter (\<lambda>j. (j, i) \<in> set flow_keys) cells))"

definition out_flow :: "assignment \<Rightarrow> cell \<Rightarrow> real" where
  "out_flow a i = sum_list (map (\<lambda>j. flow a (i, j)) (filter (\<lambda>j. (i, j) \<in> set flow_keys) cells))"

text \<open>Lines 93--95.\<close>

definition con_balance :: "assignment \<Rightarrow> bool" where
  "con_balance a \<longleftrightarrow>
     list_all (\<lambda>i.
        flow_balance a i = out_flow a i - in_flow a i \<and>
        flow_balance a i \<le> real_of_int M * reachable a i \<and>
        flow_balance a i \<ge> - real_of_int M * reachable a i) cells"

text \<open>Lines 98--99: flow only allowed through taxiways.\<close>

definition con_gate :: "assignment \<Rightarrow> bool" where
  "con_gate a \<longleftrightarrow>
     list_all (\<lambda>k. flow a k \<le> real_of_int M * place a (fst (fst k), snd (fst k), CHR ''T''))
       flow_keys"

text \<open>An assignment the solver may return satisfies every domain and every constraint.\<close>

definition feasible :: "assignment \<Rightarrow> bool" where
  "feasible a \<longleftrightarrow>
     var_domains a \<and> con_capacity a \<and> con_budget a \<and> con_exclusive a \<and> con_adjacent a \<and>
     con_border a \<and> con_spacing a \<and> con_source a \<and> con_balance a \<and> con_gate a"

subsection \<open>The solve and the extraction (lines 102--143)\<close>

text \<open>
  \<open>model.status\<close> is one of gurobipy's integer status codes; the solver's contract for
  \<open>GRB.OPTIMAL\<close> is that the values it leaves in the variables are feasible and that no
  feasible assignment has a larger objective, here \<open>operations\<close> (line 45).
\<close>

definition GRB_OPTIMAL :: int where
  "GRB_OPTIMAL = 2"

definition GRB_INFEASIBLE :: int where
  "GRB_INFEASIBLE = 3"

definition GRB_UNBOUNDED :: int where
  "GRB_UNBOUNDED = 5"

definition GRB_TIME_LIMIT :: int where
  "GRB_TIME_LIMIT = 9"


text \<open>Lines 107--108: the counters and the empty grid.\<close>

definition count0 :: "char \<rightharpoonup> int" where
  "count0 = [CHR ''F'' \<mapsto> 0, CHR ''S'' \<mapsto> 0, CHR ''T'' \<mapsto> 0, CHR ''P'' \<mapsto> 0]"

definition layout0 :: "string list" where
  "layout0 = replicate (nat rows) (replicate (nat cols) CHR ''-'')"

text \<open>
  Lines 112--114, the body of the double loop. The indices are those of a cell of
  \<open>cells\<close>, never negative and inside the grid.
\<close>

definition extract_step :: "assignment \<Rightarrow> cell \<Rightarrow> char \<Rightarrow> string list \<times> (char \<rightharpoonup> int)
    \<Rightarrow> string list \<times> (char \<rightharpoonup> int)" where
  "extract_step a i c st =
     (if place a (fst i, snd i, c) > 0.5
      then ((fst st)[nat (fst i) := (fst st ! nat (fst i))[nat (snd i) := c]],
            (snd st)(c \<mapsto> the (snd st c) + 1))
      else st)"

text \<open>Lines 110--114.\<close>

definition extraction :: "assignment \<Rightarrow> string list \<times> (char \<rightharpoonup> int)" where
  "extraction a = fold (\<lambda>i. fold (extract_step a i) components) cells (layout0, count0)"

definition layout :: "assignment \<Rightarrow> string list" where
  "layout a = fst (extraction a)"

definition count :: "assignment \<Rightarrow> char \<rightharpoonup> int" where
  "count a = snd (extraction a)"

text \<open>Line 124.\<close>

definition used_money :: "assignment \<Rightarrow> int" where
  "used_money a = sum_list (map (\<lambda>c. the (cost c) * the (count a c)) components)"

text \<open>
  What the script prints and writes, in order. A CSV field is a string, an integer or a
  float.
\<close>

datatype field = Str string | Num int | Flt real

datatype effect =
    Print_operations real
  | Print_layout "string list"
  | Print_counts "(char \<times> int) list"
  | Print_budget int int
  | Write_csv string "field list list"

text \<open>
  Lines 105--143. The \<open>if\<close> has no \<open>else\<close>: with any other status the script ends
  without printing or writing anything, and it ends the same way, with no exception and
  no exit code of its own. The solver's console log is the library's output, not the
  script's, and is left out. The header row of \<open>layout.csv\<close> is the f-string of
  line 130 at \<open>rows = 5\<close> and \<open>cols = 8\<close>.
\<close>

definition main :: "int \<Rightarrow> assignment \<Rightarrow> effect list" where
  "main status a =
     (if status = GRB_OPTIMAL then
        [Print_operations (operations a),
         Print_layout (layout a),
         Print_counts (map (\<lambda>c. (c, the (count a c))) components),
         Print_budget (used_money a) budget,
         Write_csv ''layout.csv''
           ([Str ''Grid Layout (5x8)''] # map (map (\<lambda>ch. Str [ch])) (layout a)),
         Write_csv ''summary.csv''
           ([Str ''Component'', Str ''Count''] #
            map (\<lambda>c. [Str [c], Num (the (count a c))]) components @
            [[], [Str ''Total Operations'', Flt (operations a)],
             [Str ''Budget Used'', Num (used_money a)],
             [Str ''Budget Limit'', Num budget]])]
      else [])"

text \<open>Line 113 writes, and a reader of the grid reads, \<open>layout[i[0]][i[1]]\<close>.\<close>

definition cell_at :: "string list \<Rightarrow> cell \<Rightarrow> char" where
  "cell_at L i = L ! nat (fst i) ! nat (snd i)"

subsection \<open>Notions used to state and prove the properties\<close>

text \<open>The grid keeps its \<open>rows \<times> cols\<close> shape while the loop updates it.\<close>

definition shaped :: "string list \<Rightarrow> bool" where
  "shaped L \<longleftrightarrow> length L = nat rows \<and> (\<forall>r\<in>set L. length r = nat cols)"

text \<open>One turn of the inner loop, seen from the character of cell \<open>i\<close>.\<close>

definition pick :: "assignment \<Rightarrow> cell \<Rightarrow> char \<Rightarrow> char \<Rightarrow> char" where
  "pick a i c ch = (if place a (fst i, snd i, c) > 0.5 then c else ch)"

text \<open>Every component label is a key of the counter dictionary.\<close>

definition counted :: "(char \<rightharpoonup> int) \<Rightarrow> bool" where
  "counted m \<longleftrightarrow> (\<forall>c\<in>set components. m c \<noteq> None)"

text \<open>
  Connection to the source through taxiways, in its weakest reading: a walk over
  4-neighbours that starts at \<open>source\<close> and leaves a cell only if that cell is the source
  itself or holds a Taxiway. The end of the walk may hold anything.
\<close>

inductive taxi_connected :: "assignment \<Rightarrow> cell \<Rightarrow> bool" for a :: assignment where
  at_source: "taxi_connected a source"
| along: "taxi_connected a i \<Longrightarrow> i = source \<or> place a (fst i, snd i, CHR ''T'') > 0.5 \<Longrightarrow>
          j \<in> set (get_neighbors i) \<Longrightarrow> taxi_connected a j"

subsection \<open>Concrete solved models\<close>

text \<open>
  The assignment that places the components of a drawn grid, with a given value of
  \<open>operations\<close> and given flows; only the source is flagged reachable and every
  \<open>flow_balance\<close> is 0.
\<close>

definition assignment_of :: "string list \<Rightarrow> real \<Rightarrow> (cell \<times> cell \<Rightarrow> real) \<Rightarrow> assignment" where
  "assignment_of g ops fl =
     \<lparr>place = (\<lambda>(i, j, c). if 0 \<le> i \<and> i < rows \<and> 0 \<le> j \<and> j < cols \<and> c \<in> set components \<and>
                   g ! nat i ! nat j = c then 1 else 0),
      operations = ops,
      reachable = (\<lambda>i. if i = source then 1 else 0),
      flow_balance = (\<lambda>i. 0),
      flow = fl\<rparr>"

definition no_flow :: "cell \<times> cell \<Rightarrow> real" where
  "no_flow k = 0"

text \<open>Seven units of flow going round between two neighbouring taxiway cells.\<close>

definition circulation :: "cell \<times> cell \<Rightarrow> real" where
  "circulation k = (if k = ((2, 0), (2, 1)) \<or> k = ((2, 1), (2, 0)) then 7 else 0)"

text \<open>The same round trip with the sign of the two flows turned.\<close>

definition negative_circulation :: "cell \<times> cell \<Rightarrow> real" where
  "negative_circulation k = (if k = ((2, 0), (2, 1)) \<or> k = ((2, 1), (2, 0)) then - 7 else 0)"

text \<open>Seven pads, twenty stands and thirteen taxiways.\<close>

definition layout_A :: "string list" where
  "layout_A = [''FTSFTSFT'', ''SSSSSSSS'', ''TTTTTTTF'', ''SSSSSSSS'', ''FTSFTSFT'']"

definition assignment_A :: assignment where
  "assignment_A = assignment_of layout_A 105 circulation"

definition assignment_negative :: assignment where
  "assignment_negative = assignment_of layout_A 105 negative_circulation"



text \<open>A stand, a taxiway and a pad in the corner opposite to the source, nothing else.\<close>

definition layout_island :: "string list" where
  "layout_island = [''--------'', ''--------'', ''--------'', ''--------'', ''-----STF'']"

definition assignment_island :: assignment where
  "assignment_island = assignment_of layout_island 6 no_flow"


section \<open>Properties\<close>

subsection \<open>The grid and the key lists\<close>

lemma cells_eq:
  "cells =
    [(0, 0), (0, 1), (0, 2), (0, 3), (0, 4), (0, 5), (0, 6), (0, 7),
     (1, 0), (1, 1), (1, 2), (1, 3), (1, 4), (1, 5), (1, 6), (1, 7),
     (2, 0), (2, 1), (2, 2), (2, 3), (2, 4), (2, 5), (2, 6), (2, 7),
     (3, 0), (3, 1), (3, 2), (3, 3), (3, 4), (3, 5), (3, 6), (3, 7),
     (4, 0), (4, 1), (4, 2), (4, 3), (4, 4), (4, 5), (4, 6), (4, 7)]"
  by (simp add: cells_def rows_def cols_def upto.simps)

lemma set_cells: "i \<in> set cells \<longleftrightarrow> 0 \<le> fst i \<and> fst i < rows \<and> 0 \<le> snd i \<and> snd i < cols"
  by (cases i) (auto simp: cells_def image_iff)

lemma distinct_cells: "distinct cells"
  by (simp add: cells_eq)

lemma set_components:
  "c \<in> set components \<longleftrightarrow> c = CHR ''F'' \<or> c = CHR ''S'' \<or> c = CHR ''T'' \<or> c = CHR ''P''"
  by (auto simp: components_def)

lemma set_concat_map_filter:
  "z \<in> set (concat (map (\<lambda>x. map (g x) (filter (P x) ys)) xs)) \<longleftrightarrow>
     (\<exists>x\<in>set xs. \<exists>y\<in>set ys. P x y \<and> z = g x y)"
  by auto

text \<open>The flow variables are exactly the ordered pairs of cells at Manhattan distance 1.\<close>

lemma set_flow_keys:
  "k \<in> set flow_keys \<longleftrightarrow> fst k \<in> set cells \<and> snd k \<in> set cells \<and>
     \<bar>fst (fst k) - fst (snd k)\<bar> + \<bar>snd (fst k) - snd (snd k)\<bar> = 1"
  by (cases k) (auto simp: flow_keys_def image_iff)

text \<open>\<open>get_neighbors\<close> lists the cells of the grid at Manhattan distance 1.\<close>

lemma mem_get_neighbors:
  "n \<in> set (get_neighbors i) \<longleftrightarrow>
     (0 < fst i \<and> n = (fst i - 1, snd i)) \<or> (fst i < rows - 1 \<and> n = (fst i + 1, snd i)) \<or>
     (0 < snd i \<and> n = (fst i, snd i - 1)) \<or> (snd i < cols - 1 \<and> n = (fst i, snd i + 1))"
  by (simp add: get_neighbors_def Let_def) blast

lemma abs_sum_1:
  "\<bar>a\<bar> + \<bar>b\<bar> = 1 \<longleftrightarrow> (a = 1 \<and> b = 0) \<or> (a = - 1 \<and> b = 0) \<or> (a = 0 \<and> b = 1) \<or> (a = 0 \<and> b = - 1)"
  for a b :: int
  by auto

lemma set_get_neighbors:
  assumes "i \<in> set cells"
  shows "n \<in> set (get_neighbors i) \<longleftrightarrow>
           n \<in> set cells \<and> \<bar>fst i - fst n\<bar> + \<bar>snd i - snd n\<bar> = 1"
  using assms unfolding mem_get_neighbors abs_sum_1 set_cells
  by (cases n) auto

text \<open>\<open>close_cells\<close> lists the other cells of the grid at Manhattan distance 1 or 2.\<close>

lemma set_close_cells:
  "j \<in> set (close_cells i) \<longleftrightarrow>
     j \<in> set cells \<and> 1 \<le> \<bar>fst i - fst j\<bar> + \<bar>snd i - snd j\<bar> \<and>
     \<bar>fst i - fst j\<bar> + \<bar>snd i - snd j\<bar> \<le> 2"
proof
  assume "j \<in> set (close_cells i)"
  then have "\<exists>dx dy. j = (fst i + dx, snd i + dy) \<and> \<bar>dx\<bar> + \<bar>dy\<bar> \<le> 2 \<and> 0 \<le> fst i + dx \<and>
       fst i + dx < rows \<and> 0 \<le> snd i + dy \<and> snd i + dy < cols \<and> (dx \<noteq> 0 \<or> dy \<noteq> 0)"
    unfolding close_cells_def set_concat_map_filter by blast
  then obtain dx dy where "j = (fst i + dx, snd i + dy)" and "\<bar>dx\<bar> + \<bar>dy\<bar> \<le> 2" and "0 \<le> fst i + dx"
     and "fst i + dx < rows" and "0 \<le> snd i + dy" and "snd i + dy < cols" and "dx \<noteq> 0 \<or> dy \<noteq> 0"
    by blast
  then show "j \<in> set cells \<and> 1 \<le> \<bar>fst i - fst j\<bar> + \<bar>snd i - snd j\<bar> \<and>
     \<bar>fst i - fst j\<bar> + \<bar>snd i - snd j\<bar> \<le> 2"
    by (auto simp: set_cells)
next
  assume r: "j \<in> set cells \<and> 1 \<le> \<bar>fst i - fst j\<bar> + \<bar>snd i - snd j\<bar> \<and>
     \<bar>fst i - fst j\<bar> + \<bar>snd i - snd j\<bar> \<le> 2"
  define dx where "dx = fst j - fst i"
  define dy where "dy = snd j - snd i"
  have j: "j = (fst i + dx, snd i + dy)" by (simp add: dx_def dy_def)
  have dx: "dx \<in> {-2, -1, 0, 1, 2}" and dy: "dy \<in> {-2, -1, 0, 1, 2}"
    using r unfolding dx_def dy_def by auto
  have c: "\<bar>dx\<bar> + \<bar>dy\<bar> \<le> 2 \<and> 0 \<le> fst i + dx \<and> fst i + dx < rows \<and>
                       0 \<le> snd i + dy \<and> snd i + dy < cols \<and> (dx \<noteq> 0 \<or> dy \<noteq> 0)"
    using r unfolding dx_def dy_def by (auto simp: set_cells)
  have "(fst i + dx, snd i + dy) \<in> set (close_cells i)"
    unfolding close_cells_def set_concat_map_filter
    using dx dy c by (intro bexI [of _ dx] bexI [of _ dy]) simp_all
  then show "j \<in> set (close_cells i)" using j by simp
qed

subsection \<open>What a feasible assignment gives\<close>

lemma feasible_binary:
  "feasible a \<Longrightarrow> i \<in> set cells \<Longrightarrow> c \<in> set components \<Longrightarrow> binary (place a (fst i, snd i, c))"
  by (simp add: feasible_def var_domains_def list_all_iff)

lemma feasible_exclusive:
  "feasible a \<Longrightarrow> i \<in> set cells \<Longrightarrow>
     place a (fst i, snd i, CHR ''F'') + place a (fst i, snd i, CHR ''S'') +
     place a (fst i, snd i, CHR ''T'') + place a (fst i, snd i, CHR ''P'') \<le> 1"
  by (auto simp: feasible_def con_exclusive_def list_all_iff components_def)

lemma one_hot:
  fixes f s t p :: real
  assumes "binary f" "binary s" "binary t" "binary p" "f + s + t + p \<le> 1"
  shows "(f = 0 \<and> s = 0 \<and> t = 0 \<and> p = 0) \<or> (f = 1 \<and> s = 0 \<and> t = 0 \<and> p = 0) \<or>
         (f = 0 \<and> s = 1 \<and> t = 0 \<and> p = 0) \<or> (f = 0 \<and> s = 0 \<and> t = 1 \<and> p = 0) \<or>
         (f = 0 \<and> s = 0 \<and> t = 0 \<and> p = 1)"
  using assms unfolding binary_def by (elim disjE) simp_all

lemma feasible_one_hot:
  assumes "feasible a" and "i \<in> set cells"
  shows "(place a (fst i, snd i, CHR ''F'') = 0 \<and> place a (fst i, snd i, CHR ''S'') = 0 \<and>
          place a (fst i, snd i, CHR ''T'') = 0 \<and> place a (fst i, snd i, CHR ''P'') = 0) \<or>
         (place a (fst i, snd i, CHR ''F'') = 1 \<and> place a (fst i, snd i, CHR ''S'') = 0 \<and>
          place a (fst i, snd i, CHR ''T'') = 0 \<and> place a (fst i, snd i, CHR ''P'') = 0) \<or>
         (place a (fst i, snd i, CHR ''F'') = 0 \<and> place a (fst i, snd i, CHR ''S'') = 1 \<and>
          place a (fst i, snd i, CHR ''T'') = 0 \<and> place a (fst i, snd i, CHR ''P'') = 0) \<or>
         (place a (fst i, snd i, CHR ''F'') = 0 \<and> place a (fst i, snd i, CHR ''S'') = 0 \<and>
          place a (fst i, snd i, CHR ''T'') = 1 \<and> place a (fst i, snd i, CHR ''P'') = 0) \<or>
         (place a (fst i, snd i, CHR ''F'') = 0 \<and> place a (fst i, snd i, CHR ''S'') = 0 \<and>
          place a (fst i, snd i, CHR ''T'') = 0 \<and> place a (fst i, snd i, CHR ''P'') = 1)"
proof (rule one_hot)
  show "binary (place a (fst i, snd i, CHR ''F''))" "binary (place a (fst i, snd i, CHR ''S''))"
      "binary (place a (fst i, snd i, CHR ''T''))" "binary (place a (fst i, snd i, CHR ''P''))"
    using assms by (simp_all add: feasible_binary set_components)
  show "place a (fst i, snd i, CHR ''F'') + place a (fst i, snd i, CHR ''S'') +
     place a (fst i, snd i, CHR ''T'') + place a (fst i, snd i, CHR ''P'') \<le> 1"
    using assms by (rule feasible_exclusive)
qed

lemma feasible_spacing:
  "feasible a \<Longrightarrow> i \<in> set cells \<Longrightarrow> j \<in> set (close_cells i) \<Longrightarrow>
     place a (fst j, snd j, CHR ''F'') \<le> (1 - place a (fst i, snd i, CHR ''F'')) * real_of_int M"
  by (simp add: feasible_def con_spacing_def list_all_iff)

lemma feasible_adjacent:
  assumes "feasible a" and "i \<in> set cells" and "c = CHR ''F'' \<or> c = CHR ''S'' \<or> c = CHR ''P''"
  shows "place a (fst i, snd i, c) \<le>
           sum_list (map (\<lambda>n. place a (fst n, snd n, CHR ''T'')) (get_neighbors i))"
proof -
  have "con_adjacent a" using assms(1) by (simp add: feasible_def)
  then show ?thesis
    using assms(2,3) by (auto simp: con_adjacent_def list_all_iff Let_def)
qed

lemma feasible_flow:
  assumes "feasible a" and "k \<in> set flow_keys"
  shows "0 \<le> flow a k" and "flow a k \<le> real_of_int M * place a (fst (fst k), snd (fst k), CHR ''T'')"
  using assms by (simp_all add: feasible_def var_domains_def con_gate_def list_all_iff)

lemma feasible_balance:
  assumes "feasible a" and "i \<in> set cells"
  shows "flow_balance a i = out_flow a i - in_flow a i" and "0 \<le> flow_balance a i"
  using assms by (auto simp: feasible_def var_domains_def con_balance_def list_all_iff)


subsection \<open>The extraction loop\<close>

text \<open>The counters: after the loop, \<open>count[c]\<close> is the number of cells whose \<open>c\<close> variable is on.\<close>

lemma count_cell:
  assumes "counted (snd st)" and "snd st c = Some n" and "c \<in> set components"
  shows "snd (fold (extract_step a i) components st) c =
           Some (n + (if place a (fst i, snd i, c) > 0.5 then 1 else 0)) \<and>
         counted (snd (fold (extract_step a i) components st))"
  using assms
  by (auto simp: counted_def components_def extract_step_def)


lemma count_fold:
  assumes "counted (snd st)" and "snd st c = Some n" and "c \<in> set components"
  shows "snd (fold (\<lambda>i. fold (extract_step a i) components) xs st) c =
           Some (n + int (length (filter (\<lambda>i. place a (fst i, snd i, c) > 0.5) xs)))"
  using assms
proof (induction xs arbitrary: st n)
  case Nil
  then show ?case by simp
next
  case (Cons x xs)
  let ?st = "fold (extract_step a x) components st"
  from count_cell [OF Cons.prems(1) Cons.prems(2) Cons.prems(3), of a x]
  have 1: "snd ?st c = Some (n + (if place a (fst x, snd x, c) > 0.5 then 1 else 0))"
    and 2: "counted (snd ?st)" by simp_all
  show ?case
    using Cons.IH [OF 2 1 Cons.prems(3)] by simp
qed

lemma counted_count0: "counted count0"
  by (simp add: counted_def count0_def components_def)

lemma count0_Some: "c \<in> set components \<Longrightarrow> count0 c = Some 0"
  by (auto simp: count0_def components_def)

lemma count_eq_length:
  "c \<in> set components \<Longrightarrow>
     count a c = Some (int (length (filter (\<lambda>i. place a (fst i, snd i, c) > 0.5) cells)))"
  unfolding count_def extraction_def
  using count_fold [of "(layout0, count0)" c 0 a cells]
  by (simp add: counted_count0 count0_Some)

lemma binary_sum_list:
  "(\<And>x. x \<in> set xs \<Longrightarrow> binary (f x)) \<Longrightarrow>
     sum_list (map f xs) = real (length (filter (\<lambda>x. f x > 0.5) xs))"
proof (induction xs)
  case Nil
  then show ?case by simp
next
  case (Cons x xs)
  have IH: "sum_list (map f xs) = real (length (filter (\<lambda>x. f x > 0.5) xs))"
    using Cons by simp
  have "binary (f x)" using Cons.prems by simp
  then consider "f x = 0" | "f x = 1" by (auto simp: binary_def)
  then show ?case
  proof cases
    case 1
    then show ?thesis using IH by simp
  next
    case 2
    then show ?thesis using IH by simp
  qed
qed

lemma count_eq_sum:
  assumes "feasible a" and "c \<in> set components"
  shows "real_of_int (the (count a c)) = sum_list (map (\<lambda>i. place a (fst i, snd i, c)) cells)"
proof -
  have "sum_list (map (\<lambda>i. place a (fst i, snd i, c)) cells) =
          real (length (filter (\<lambda>i. place a (fst i, snd i, c) > 0.5) cells))"
    by (rule binary_sum_list) (simp add: feasible_binary assms)
  then show ?thesis
    by (simp add: count_eq_length assms(2))
qed


text \<open>The grid: after the loop, a cell shows the last component whose variable is on, or \<open>-\<close>.\<close>

lemma shaped_layout0: "shaped layout0"
  by (simp add: shaped_def layout0_def)

lemma cell_at_layout0: "i \<in> set cells \<Longrightarrow> cell_at layout0 i = CHR ''-''"
  by (simp add: cell_at_def layout0_def set_cells)

lemma shaped_update:
  assumes "shaped L"
  shows "shaped (L[r := (L ! r)[k := c]])"
proof (cases "r < length L")
  case True
  have "set (L[r := (L ! r)[k := c]]) \<subseteq> insert ((L ! r)[k := c]) (set L)"
    by (rule set_update_subset_insert)
  moreover have "length ((L ! r)[k := c]) = nat cols"
    using assms True by (simp add: shaped_def)
  ultimately have "\<forall>x\<in>set (L[r := (L ! r)[k := c]]). length x = nat cols"
    using assms unfolding shaped_def by blast
  then show ?thesis
    using assms by (simp add: shaped_def)
next
  case False
  then have "L[r := (L ! r)[k := c]] = L"
    by (simp add: list_update_beyond)
  then show ?thesis using assms by simp
qed

lemma cell_at_update:
  assumes "shaped L" and "i \<in> set cells" and "j \<in> set cells"
  shows "cell_at (L[nat (fst i) := (L ! nat (fst i))[nat (snd i) := c]]) j =
           (if j = i then c else cell_at L j)"
proof -
  have i: "nat (fst i) < length L" "nat (snd i) < length (L ! nat (fst i))"
    using assms(1,2) by (auto simp: shaped_def set_cells)
  have eq: "j = i \<longleftrightarrow> nat (fst j) = nat (fst i) \<and> nat (snd j) = nat (snd i)"
    using assms(2,3) by (auto simp: set_cells prod_eq_iff)
  show ?thesis
    using i eq by (auto simp: cell_at_def nth_list_update)
qed

lemma layout_step:
  assumes "shaped (fst st)" and "i \<in> set cells"
  shows "shaped (fst (extract_step a i c st))"
    and "j \<in> set cells \<Longrightarrow> cell_at (fst (extract_step a i c st)) j =
           (if j = i then pick a i c (cell_at (fst st) i) else cell_at (fst st) j)"
  using assms by (auto simp: extract_step_def pick_def shaped_update cell_at_update)

lemma layout_inner:
  assumes "shaped (fst st)" and "i \<in> set cells"
  shows "shaped (fst (fold (extract_step a i) cs st)) \<and>
         (\<forall>j\<in>set cells. cell_at (fst (fold (extract_step a i) cs st)) j =
           (if j = i then fold (pick a i) cs (cell_at (fst st) i) else cell_at (fst st) j))"
  using assms
proof (induction cs arbitrary: st)
  case Nil
  then show ?case by simp
next
  case (Cons c cs)
  let ?st = "extract_step a i c st"
  have s: "shaped (fst ?st)" by (rule layout_step(1) [OF Cons.prems])
  have g: "\<And>j. j \<in> set cells \<Longrightarrow> cell_at (fst ?st) j =
           (if j = i then pick a i c (cell_at (fst st) i) else cell_at (fst st) j)"
    by (rule layout_step(2) [OF Cons.prems])
  show ?case
    using Cons.IH [OF s Cons.prems(2)] g Cons.prems(2) by simp
qed

lemma layout_outer:
  assumes "shaped (fst st)" and "set xs \<subseteq> set cells" and "distinct xs"
  shows "shaped (fst (fold (\<lambda>i. fold (extract_step a i) components) xs st)) \<and>
         (\<forall>j\<in>set cells. cell_at (fst (fold (\<lambda>i. fold (extract_step a i) components) xs st)) j =
           (if j \<in> set xs then fold (pick a j) components (cell_at (fst st) j)
            else cell_at (fst st) j))"
  using assms
proof (induction xs arbitrary: st)
  case Nil
  then show ?case by simp
next
  case (Cons x xs)
  let ?st = "fold (extract_step a x) components st"
  have x: "x \<in> set cells" using Cons.prems(2) by simp
  from layout_inner [OF Cons.prems(1) x, of a components]
  have s: "shaped (fst ?st)"
    and g: "\<And>j. j \<in> set cells \<Longrightarrow> cell_at (fst ?st) j =
           (if j = x then fold (pick a x) components (cell_at (fst st) x) else cell_at (fst st) j)"
    by simp_all
  have sub: "set xs \<subseteq> set cells" and d: "distinct xs" and nx: "x \<notin> set xs"
    using Cons.prems by simp_all
  show ?case
    using Cons.IH [OF s sub d] g nx by auto
qed

lemma layout_cell:
  assumes "i \<in> set cells"
  shows "cell_at (layout a) i = fold (pick a i) components CHR ''-''"
  using layout_outer [of "(layout0, count0)" cells a] assms
  by (simp add: layout_def extraction_def shaped_layout0 distinct_cells cell_at_layout0)

lemma fold_pick:
  "fold (pick a i) components ch =
     (if place a (fst i, snd i, CHR ''P'') > 0.5 then CHR ''P''
      else if place a (fst i, snd i, CHR ''T'') > 0.5 then CHR ''T''
      else if place a (fst i, snd i, CHR ''S'') > 0.5 then CHR ''S''
      else if place a (fst i, snd i, CHR ''F'') > 0.5 then CHR ''F'' else ch)"
  by (simp add: components_def pick_def)

lemma layout_cell_iff:
  assumes "feasible a" and "i \<in> set cells" and "c \<in> set components"
  shows "cell_at (layout a) i = c \<longleftrightarrow> place a (fst i, snd i, c) = 1"
proof -
  have c: "c = CHR ''F'' \<or> c = CHR ''S'' \<or> c = CHR ''T'' \<or> c = CHR ''P''"
    using assms(3) by (simp add: set_components)
  have l: "cell_at (layout a) i = fold (pick a i) components CHR ''-''"
    by (rule layout_cell [OF assms(2)])
  from feasible_one_hot [OF assms(1,2)] show ?thesis
    unfolding l fold_pick using c by (elim disjE conjE) simp_all
qed

lemma layout_cell_empty:
  assumes "feasible a" and "i \<in> set cells"
  shows "cell_at (layout a) i = CHR ''-'' \<longleftrightarrow> (\<forall>c\<in>set components. place a (fst i, snd i, c) = 0)"
proof -
  have l: "cell_at (layout a) i = fold (pick a i) components CHR ''-''"
    by (rule layout_cell [OF assms(2)])
  from feasible_one_hot [OF assms(1,2)] show ?thesis
    unfolding l fold_pick by (elim disjE conjE) (simp_all add: components_def)
qed

subsection \<open>The concrete models are feasible\<close>

lemmas grid_defs = assignment_of_def rows_def cols_def components_def

lemma symmetric_flow_balanced:
  assumes "\<And>i j. flow a (i, j) = flow a (j, i)"
  shows "out_flow a i - in_flow a i = 0"
proof -
  have "(j, i) \<in> set flow_keys \<longleftrightarrow> (i, j) \<in> set flow_keys" for j
    by (auto simp: set_flow_keys)
  then show ?thesis
    by (simp add: in_flow_def out_flow_def assms [symmetric])
qed

lemma feasible_ofI:
  assumes "con_capacity (assignment_of g ops fl)" and "con_budget (assignment_of g ops fl)"
    and "con_exclusive (assignment_of g ops fl)" and "con_adjacent (assignment_of g ops fl)"
    and "con_border (assignment_of g ops fl)" and "con_spacing (assignment_of g ops fl)"
    and "0 \<le> ops" and "\<And>i j. fl (i, j) = fl (j, i)" and "\<And>k. 0 \<le> fl k"
    and "\<And>k. k \<in> set flow_keys \<Longrightarrow>
           fl k \<le> 1000 * place (assignment_of g ops fl) (fst (fst k), snd (fst k), CHR ''T'')"
  shows "feasible (assignment_of g ops fl)"
proof -
  let ?a = "assignment_of g ops fl"
  have "out_flow ?a i - in_flow ?a i = 0" for i
    by (rule symmetric_flow_balanced) (simp add: assignment_of_def assms(8))
  then have "con_balance ?a"
    by (simp add: con_balance_def list_all_iff) (simp add: assignment_of_def M_def)
  moreover have "var_domains ?a"
    using assms(7,9) by (simp add: var_domains_def list_all_iff binary_def assignment_of_def)
  moreover have "con_source ?a"
    by (simp add: con_source_def assignment_of_def)
  moreover have "con_gate ?a"
  proof -
    have "flow ?a = fl" by (simp add: assignment_of_def)
    then show ?thesis
      using assms(10) by (simp add: con_gate_def list_all_iff M_def)
  qed
  ultimately show ?thesis
    using assms(1-6) by (simp add: feasible_def)
qed

lemma feasible_A: "feasible assignment_A"
  unfolding assignment_A_def
proof (rule feasible_ofI)
  let ?a = "assignment_of layout_A 105 circulation"
  show "con_capacity ?a"
    by (simp add: con_capacity_def cells_eq grid_defs layout_A_def fato_capacity_def stand_capacity_def)
  show "con_budget ?a"
    by (simp add: con_budget_def cells_eq grid_defs layout_A_def cost_def budget_def)
  show "con_exclusive ?a"
    by (simp add: con_exclusive_def cells_eq grid_defs layout_A_def)
  show "con_adjacent ?a"
    by (simp add: con_adjacent_def cells_eq grid_defs layout_A_def get_neighbors_def Let_def)
  show "con_border ?a"
    by (simp add: con_border_def cells_eq grid_defs layout_A_def)
  show "con_spacing ?a"
    by (simp add: con_spacing_def cells_eq grid_defs layout_A_def close_cells_def M_def)
  show "(0::real) \<le> 105" by simp
  show "circulation (i, j) = circulation (j, i)" for i j
    by (auto simp: circulation_def)
  show "0 \<le> circulation k" for k
    by (simp add: circulation_def)
  show "circulation k \<le> 1000 * place ?a (fst (fst k), snd (fst k), CHR ''T'')" for k
    by (simp add: circulation_def grid_defs layout_A_def)
qed


lemma no_flow_facts:
  "no_flow (i, j) = no_flow (j, i)" "0 \<le> no_flow k"
  by (simp_all add: no_flow_def)

lemma place_nonneg: "0 \<le> place (assignment_of g ops fl) k"
  by (simp add: assignment_of_def split: prod.splits)


lemma feasible_island: "feasible assignment_island"
  unfolding assignment_island_def
proof (rule feasible_ofI)
  let ?a = "assignment_of layout_island 6 no_flow"
  show "con_capacity ?a"
    by (simp add: con_capacity_def cells_eq grid_defs layout_island_def fato_capacity_def stand_capacity_def)
  show "con_budget ?a"
    by (simp add: con_budget_def cells_eq grid_defs layout_island_def cost_def budget_def)
  show "con_exclusive ?a"
    by (simp add: con_exclusive_def cells_eq grid_defs layout_island_def)
  show "con_adjacent ?a"
    by (simp add: con_adjacent_def cells_eq grid_defs layout_island_def get_neighbors_def Let_def)
  show "con_border ?a"
    by (simp add: con_border_def cells_eq grid_defs layout_island_def)
  show "con_spacing ?a"
    by (simp add: con_spacing_def cells_eq grid_defs layout_island_def close_cells_def M_def)
  show "(0::real) \<le> 6" by simp
  show "no_flow (i, j) = no_flow (j, i)" for i j
    by (rule no_flow_facts)
  show "0 \<le> no_flow k" for k
    by (rule no_flow_facts)
  show "no_flow k \<le> 1000 * place ?a (fst (fst k), snd (fst k), CHR ''T'')" for k
    using place_nonneg [of layout_island 6 no_flow] by (simp add: no_flow_def)
qed

subsection \<open>Exclusivity\<close>

text \<open>
  C7. In a feasible assignment the four placement variables of a cell sum to at most 1,
  so the extraction loop finds at most one of them above the threshold 0.5 at that cell:
  a cell of the extracted grid is labelled at most once.
\<close>

theorem exclusive_cell:
  assumes "feasible a" and "i \<in> set cells"
  shows "sum_list (map (\<lambda>c. place a (fst i, snd i, c)) components) \<le> 1 \<and>
         length (filter (\<lambda>c. place a (fst i, snd i, c) > 0.5) components) \<le> 1"
proof -
  have b: "binary (place a (fst i, snd i, CHR ''F''))" "binary (place a (fst i, snd i, CHR ''S''))"
      "binary (place a (fst i, snd i, CHR ''T''))" "binary (place a (fst i, snd i, CHR ''P''))"
    using assms by (simp_all add: feasible_binary set_components)
  have e: "place a (fst i, snd i, CHR ''F'') + place a (fst i, snd i, CHR ''S'') +
     place a (fst i, snd i, CHR ''T'') + place a (fst i, snd i, CHR ''P'') \<le> 1"
    using assms by (rule feasible_exclusive)
  have "sum_list (map (\<lambda>c. place a (fst i, snd i, c)) components) \<le> 1"
    using e by (simp add: components_def)
  moreover have "length (filter (\<lambda>c. place a (fst i, snd i, c) > 0.5) components) \<le> 1"
    using b e by (auto simp: components_def binary_def)
  ultimately show ?thesis ..
qed

theorem exclusive_cell_witness:
  "feasible assignment_A \<and> (2, 3) \<in> set cells \<and>
   sum_list (map (\<lambda>c. place assignment_A (2, 3, c)) components) \<le> 1 \<and>
   length (filter (\<lambda>c. place assignment_A (2, 3, c) > 0.5)
     components) \<le> 1"
proof -
  have c: "(2, 3) \<in> set cells" by (simp add: set_cells rows_def cols_def)
  from exclusive_cell [OF feasible_A c] feasible_A c show ?thesis by simp
qed

subsection \<open>Throughput\<close>

text \<open>
  C4. In a feasible assignment \<open>operations\<close> is at most half the pad capacity times the
  number of pads the extraction counts, that is 15 times the pad count, and at most the
  stand capacity times the number of stands counted, that is 6 times the stand count.
\<close>

theorem throughput_bound:
  assumes "feasible a"
  shows "operations a \<le> (real_of_int fato_capacity / 2) * real_of_int (the (count a CHR ''F'')) \<and>
         operations a \<le> 15 * real_of_int (the (count a CHR ''F'')) \<and>
         operations a \<le> real_of_int stand_capacity * real_of_int (the (count a CHR ''S'')) \<and>
         operations a \<le> 6 * real_of_int (the (count a CHR ''S''))"
proof -
  have c: "con_capacity a" using assms by (simp add: feasible_def)
  have F: "real_of_int (the (count a CHR ''F'')) = sum_list (map (\<lambda>i. place a (fst i, snd i, CHR ''F'')) cells)"
    by (rule count_eq_sum [OF assms]) (simp add: set_components)
  have S: "real_of_int (the (count a CHR ''S'')) = sum_list (map (\<lambda>i. place a (fst i, snd i, CHR ''S'')) cells)"
    by (rule count_eq_sum [OF assms]) (simp add: set_components)
  show ?thesis
    using c unfolding F S con_capacity_def by (simp add: fato_capacity_def stand_capacity_def)
qed

theorem throughput_bound_witness:
  "feasible assignment_A \<and>
   operations assignment_A \<le> 15 * real_of_int (the (count assignment_A CHR ''F'')) \<and>
   operations assignment_A \<le> 6 * real_of_int (the (count assignment_A CHR ''S''))"
  using throughput_bound [OF feasible_A] feasible_A by blast

subsection \<open>Budget\<close>

lemma sum_list_concat_swap:
  "sum_list (concat (map (\<lambda>i. map (\<lambda>c. k c * f i c) cs) xs)) =
     sum_list (map (\<lambda>c. k c * sum_list (map (\<lambda>i. f i c) xs)) cs)" for k :: "'c \<Rightarrow> real"
proof (induction xs)
  case Nil
  then show ?case by simp
next
  case (Cons x xs)
  have "sum_list (map (\<lambda>c. k c * f x c) cs) + sum_list (map (\<lambda>c. k c * sum_list (map (\<lambda>i. f i c) xs)) cs)
        = sum_list (map (\<lambda>c. k c * (f x c + sum_list (map (\<lambda>i. f i c) xs))) cs)"
    by (induction cs) (simp_all add: algebra_simps)
  with Cons show ?case by simp
qed

text \<open>
  C8. For a feasible assignment, the cost recomputed from the extracted counts (line 124),
  40000 per FATO, 46000 per Stand, 40000 per Taxiway and 300000 per Terminal, is at most
  the budget of 2000000.
\<close>

theorem budget_recomputed:
  assumes "feasible a"
  shows "used_money a \<le> budget \<and>
         used_money a = 40000 * the (count a CHR ''F'') + 46000 * the (count a CHR ''S'') +
                        40000 * the (count a CHR ''T'') + 300000 * the (count a CHR ''P'') \<and>
         budget = 2000000"
proof -
  have b: "con_budget a" using assms by (simp add: feasible_def)
  have "real_of_int (used_money a) =
          sum_list (map (\<lambda>c. real_of_int (the (cost c)) * real_of_int (the (count a c))) components)"
    by (simp add: used_money_def components_def)
  also have "\<dots> = sum_list (map (\<lambda>c. real_of_int (the (cost c)) *
                  sum_list (map (\<lambda>i. place a (fst i, snd i, c)) cells)) components)"
    by (rule arg_cong [where f = sum_list], rule map_cong [OF refl]) (simp add: count_eq_sum [OF assms])
  also have "\<dots> = sum_list (concat (map (\<lambda>i. map (\<lambda>c.
        real_of_int (the (cost c)) * place a (fst i, snd i, c)) components) cells))"
    by (rule sum_list_concat_swap [symmetric])
  also have "\<dots> \<le> real_of_int budget"
    using b by (simp add: con_budget_def)
  finally have "used_money a \<le> budget" by simp
  moreover have "used_money a = 40000 * the (count a CHR ''F'') + 46000 * the (count a CHR ''S'') +
                        40000 * the (count a CHR ''T'') + 300000 * the (count a CHR ''P'')"
    by (simp add: used_money_def components_def cost_def)
  ultimately show ?thesis by (simp add: budget_def)
qed

theorem budget_recomputed_witness:
  "feasible assignment_A \<and> used_money assignment_A \<le> budget"
  using budget_recomputed [OF feasible_A] feasible_A by blast

subsection \<open>Pad spacing\<close>

text \<open>
  C5. For two cells of the grid at Manhattan distance 1 or 2, line 83 posts
  \<open>place[j, F] \<le> (1 - place[i, F]) * M\<close> with \<open>M = 1000\<close>, and in a feasible assignment
  at most one of the two holds a FATO, in the variables and in the extracted grid.
\<close>

theorem pad_spacing:
  assumes "feasible a" and "i \<in> set cells" and "j \<in> set cells"
    and "\<bar>fst i - fst j\<bar> + \<bar>snd i - snd j\<bar> = 1 \<or> \<bar>fst i - fst j\<bar> + \<bar>snd i - snd j\<bar> = 2"
  shows "j \<in> set (close_cells i) \<and>
         place a (fst j, snd j, CHR ''F'') \<le> (1 - place a (fst i, snd i, CHR ''F'')) * 1000 \<and>
         \<not> (place a (fst i, snd i, CHR ''F'') = 1 \<and> place a (fst j, snd j, CHR ''F'') = 1) \<and>
         \<not> (cell_at (layout a) i = CHR ''F'' \<and> cell_at (layout a) j = CHR ''F'')"
proof -
  have c: "j \<in> set (close_cells i)"
    using assms(3,4) by (auto simp: set_close_cells)
  have le: "place a (fst j, snd j, CHR ''F'') \<le> (1 - place a (fst i, snd i, CHR ''F'')) * 1000"
    using feasible_spacing [OF assms(1,2) c] by (simp add: M_def)
  have n: "\<not> (place a (fst i, snd i, CHR ''F'') = 1 \<and> place a (fst j, snd j, CHR ''F'') = 1)"
    using le by auto
  have F: "CHR ''F'' \<in> set components" by (simp add: set_components)
  have "\<not> (cell_at (layout a) i = CHR ''F'' \<and> cell_at (layout a) j = CHR ''F'')"
    using n by (simp add: layout_cell_iff [OF assms(1,2) F] layout_cell_iff [OF assms(1,3) F])
  with c le n show ?thesis by simp
qed

theorem pad_spacing_witness:
  "feasible assignment_A \<and> (0, 3) \<in> set cells \<and> (0, 4) \<in> set cells \<and>
   \<bar>(0 :: int) - 0\<bar> + \<bar>(3 :: int) - 4\<bar> = 1 \<and>
   \<not> (place assignment_A (0, 3, CHR ''F'') = 1 \<and>
      place assignment_A (0, 4, CHR ''F'') = 1) \<and>
   \<not> (cell_at (layout assignment_A) (0, 3) = CHR ''F'' \<and> cell_at (layout assignment_A) (0, 4) = CHR ''F'')"
proof -
  have c: "(0, 3) \<in> set cells" "(0, 4) \<in> set cells"
    by (simp_all add: set_cells rows_def cols_def)
  have d: "\<bar>fst (0 :: int, 3 :: int) - fst (0 :: int, 4 :: int)\<bar> +
           \<bar>snd (0 :: int, 3 :: int) - snd (0 :: int, 4 :: int)\<bar> = 1"
    by simp
  from pad_spacing [OF feasible_A c disjI1 [OF d]] feasible_A c show ?thesis by simp
qed

subsection \<open>Adjacency to a taxiway\<close>

lemma binary_sum_ge_1:
  assumes "\<And>x. x \<in> set xs \<Longrightarrow> binary (f x)" and "1 \<le> sum_list (map f xs)"
  shows "\<exists>x\<in>set xs. f x = 1"
proof (rule ccontr)
  assume "\<not> (\<exists>x\<in>set xs. f x = 1)"
  then have "\<And>x. x \<in> set xs \<Longrightarrow> f x = 0"
    using assms(1) by (auto simp: binary_def)
  then have "sum_list (map f xs) = 0"
    by (induction xs) simp_all
  with assms(2) show False by simp
qed

text \<open>
  C6. For a cell and a dependent type (FATO, Stand or Terminal), lines 71--73 post that the
  Taxiway placements of the cell's neighbours sum to at least the placement of that type
  at the cell; so in a feasible assignment a cell that holds one of the three has a
  neighbour that holds a Taxiway, in the variables and in the extracted grid.
\<close>

theorem taxiway_adjacent:
  assumes "feasible a" and "i \<in> set cells" and "c = CHR ''F'' \<or> c = CHR ''S'' \<or> c = CHR ''P''"
  shows "place a (fst i, snd i, c) \<le>
           sum_list (map (\<lambda>n. place a (fst n, snd n, CHR ''T'')) (get_neighbors i)) \<and>
         (place a (fst i, snd i, c) = 1 \<longrightarrow>
            (\<exists>n\<in>set (get_neighbors i). place a (fst n, snd n, CHR ''T'') = 1)) \<and>
         (cell_at (layout a) i = c \<longrightarrow>
            (\<exists>n\<in>set (get_neighbors i). cell_at (layout a) n = CHR ''T''))"
proof -
  have le: "place a (fst i, snd i, c) \<le>
           sum_list (map (\<lambda>n. place a (fst n, snd n, CHR ''T'')) (get_neighbors i))"
    by (rule feasible_adjacent [OF assms])
  have T: "CHR ''T'' \<in> set components" and c: "c \<in> set components"
    using assms(3) by (auto simp: set_components)
  have nb: "\<And>n. n \<in> set (get_neighbors i) \<Longrightarrow> n \<in> set cells"
    by (simp add: set_get_neighbors [OF assms(2)])
  have b: "\<And>n. n \<in> set (get_neighbors i) \<Longrightarrow> binary (place a (fst n, snd n, CHR ''T''))"
    by (rule feasible_binary [OF assms(1) nb T])
  have p: "\<exists>n\<in>set (get_neighbors i). place a (fst n, snd n, CHR ''T'') = 1"
    if "place a (fst i, snd i, c) = 1"
    using binary_sum_ge_1 [of "get_neighbors i" "\<lambda>n. place a (fst n, snd n, CHR ''T'')"] b le that
    by simp
  have l: "\<exists>n\<in>set (get_neighbors i). cell_at (layout a) n = CHR ''T''"
    if "cell_at (layout a) i = c"
  proof -
    have "place a (fst i, snd i, c) = 1"
      using that layout_cell_iff [OF assms(1,2) c] by simp
    then obtain n where n: "n \<in> set (get_neighbors i)" and "place a (fst n, snd n, CHR ''T'') = 1"
      using p by blast
    then have "cell_at (layout a) n = CHR ''T''"
      using layout_cell_iff [OF assms(1) nb T] by simp
    with n show ?thesis by blast
  qed
  from le p l show ?thesis by blast
qed

theorem taxiway_adjacent_witness:
  "feasible assignment_A \<and> (0, 0) \<in> set cells \<and>
   place assignment_A (0, 0, CHR ''F'') = 1 \<and>
   (\<exists>n\<in>set (get_neighbors (0, 0)). place assignment_A (fst n, snd n, CHR ''T'') = 1) \<and>
   cell_at (layout assignment_A) (0, 0) = CHR ''F'' \<and>
   (\<exists>n\<in>set (get_neighbors (0, 0)). cell_at (layout assignment_A) n = CHR ''T'')"
proof -
  have c: "(0, 0) \<in> set cells" by (simp add: set_cells rows_def cols_def)
  have p: "place assignment_A (0, 0, CHR ''F'') = 1"
    by (simp add: assignment_A_def grid_defs layout_A_def)
  have l: "cell_at (layout assignment_A) (0, 0) = CHR ''F''"
    using p layout_cell_iff [OF feasible_A c, of "CHR ''F''"] by (simp add: set_components)
  from taxiway_adjacent [OF feasible_A c, of "CHR ''F''"] feasible_A c p l show ?thesis by simp
qed

subsection \<open>Flow variables\<close>

text \<open>
  C2, as the code has it. The flow variables are exactly the ordered pairs of cells of the
  grid at Manhattan distance 1. Each is a continuous variable with the default lower bound
  0, so it is not signed: in a feasible assignment its value lies between 0 and
  \<open>M = 1000\<close>, it is at most \<open>M\<close> times the Taxiway placement of its tail cell, and it
  is 0 when the tail cell holds no Taxiway.
\<close>

theorem flow_nonnegative_gated:
  assumes "feasible a"
  shows "((i, j) \<in> set flow_keys \<longleftrightarrow>
            i \<in> set cells \<and> j \<in> set cells \<and> \<bar>fst i - fst j\<bar> + \<bar>snd i - snd j\<bar> = 1) \<and>
         ((i, j) \<in> set flow_keys \<longrightarrow>
            0 \<le> flow a (i, j) \<and> flow a (i, j) \<le> real_of_int M \<and> real_of_int M = 1000 \<and>
            flow a (i, j) \<le> real_of_int M * place a (fst i, snd i, CHR ''T'') \<and>
            (place a (fst i, snd i, CHR ''T'') \<noteq> 1 \<longrightarrow> flow a (i, j) = 0) \<and>
            (cell_at (layout a) i \<noteq> CHR ''T'' \<longrightarrow> flow a (i, j) = 0))"
proof -
  have keys: "(i, j) \<in> set flow_keys \<longleftrightarrow>
            i \<in> set cells \<and> j \<in> set cells \<and> \<bar>fst i - fst j\<bar> + \<bar>snd i - snd j\<bar> = 1"
    by (simp add: set_flow_keys)
  have "0 \<le> flow a (i, j) \<and> flow a (i, j) \<le> real_of_int M \<and> real_of_int M = 1000 \<and>
        flow a (i, j) \<le> real_of_int M * place a (fst i, snd i, CHR ''T'') \<and>
        (place a (fst i, snd i, CHR ''T'') \<noteq> 1 \<longrightarrow> flow a (i, j) = 0) \<and>
        (cell_at (layout a) i \<noteq> CHR ''T'' \<longrightarrow> flow a (i, j) = 0)"
    if k: "(i, j) \<in> set flow_keys"
  proof -
    have i: "i \<in> set cells" using k keys by simp
    have T: "CHR ''T'' \<in> set components" by (simp add: set_components)
    have b: "binary (place a (fst i, snd i, CHR ''T''))"
      by (rule feasible_binary [OF assms i T])
    have lo: "0 \<le> flow a (i, j)" and hi: "flow a (i, j) \<le> 1000 * place a (fst i, snd i, CHR ''T'')"
      using feasible_flow [OF assms k] by (simp_all add: M_def)
    have z: "flow a (i, j) = 0" if "place a (fst i, snd i, CHR ''T'') \<noteq> 1"
      using that b lo hi by (auto simp: binary_def)
    have "flow a (i, j) \<le> 1000"
      using b hi by (auto simp: binary_def)
    with lo hi z show ?thesis
      by (simp add: layout_cell_iff [OF assms i T] M_def)
  qed
  with keys show ?thesis by blast
qed

theorem flow_nonnegative_gated_witness:
  "feasible assignment_A \<and> ((1, 0), (1, 1)) \<in> set flow_keys \<and>
   place assignment_A (1, 0, CHR ''T'') \<noteq> 1 \<and> flow assignment_A ((1, 0), (1, 1)) = 0 \<and>
   ((2, 0), (2, 1)) \<in> set flow_keys \<and> flow assignment_A ((2, 0), (2, 1)) = 7 \<and>
   0 \<le> flow assignment_A ((2, 0), (2, 1)) \<and>
   flow assignment_A ((2, 0), (2, 1)) \<le> real_of_int M"
proof -
  have k: "((1, 0), (1, 1)) \<in> set flow_keys" "((2, 0), (2, 1)) \<in> set flow_keys"
    by (simp_all add: set_flow_keys set_cells rows_def cols_def)
  have p: "place assignment_A (1, 0, CHR ''T'') \<noteq> 1"
    by (simp add: assignment_A_def grid_defs layout_A_def)
  have f: "flow assignment_A ((2, 0), (2, 1)) = 7"
    by (simp add: assignment_A_def assignment_of_def circulation_def)
  from flow_nonnegative_gated [OF feasible_A, of "(1, 0)" "(1, 1)"]
    flow_nonnegative_gated [OF feasible_A, of "(2, 0)" "(2, 1)"] feasible_A k p f
  show ?thesis by simp
qed

text \<open>
  C2, as the claim has it, fails: the flow variable is not signed. Turn the sign of the
  two flows of \<open>assignment_A\<close>, from 7 to -7, on the two edges between the taxiway cells
  \<open>(2, 0)\<close> and \<open>(2, 1)\<close>. The values stay within \<open>-M\<close> and \<open>M\<close> and every constraint
  the script posts still holds (lines 48--99), yet the assignment is not feasible: the
  domain of the variable excludes the negative value.
\<close>

theorem negative_flow_infeasible:
  "((2, 0), (2, 1)) \<in> set flow_keys \<and>
   place assignment_negative (2, 0, CHR ''T'') = 1 \<and>
   flow assignment_negative ((2, 0), (2, 1)) = - 7 \<and>
   - real_of_int M \<le> flow assignment_negative ((2, 0), (2, 1)) \<and>
   flow assignment_negative ((2, 0), (2, 1)) \<le> real_of_int M \<and>
   con_capacity assignment_negative \<and> con_budget assignment_negative \<and>
   con_exclusive assignment_negative \<and> con_adjacent assignment_negative \<and>
   con_border assignment_negative \<and> con_spacing assignment_negative \<and>
   con_source assignment_negative \<and> con_balance assignment_negative \<and>
   con_gate assignment_negative \<and>
   \<not> feasible assignment_negative"
proof -
  let ?a = "assignment_of layout_A 105 negative_circulation"
  have k: "((2, 0), (2, 1)) \<in> set flow_keys"
    by (simp add: set_flow_keys set_cells rows_def cols_def)
  have f: "flow ?a ((2, 0), (2, 1)) = - 7"
    by (simp add: assignment_of_def negative_circulation_def)
  have p: "place ?a (2, 0, CHR ''T'') = 1"
    by (simp add: grid_defs layout_A_def)
  have c1: "con_capacity ?a"
    by (simp add: con_capacity_def cells_eq grid_defs layout_A_def fato_capacity_def stand_capacity_def)
  have c2: "con_budget ?a"
    by (simp add: con_budget_def cells_eq grid_defs layout_A_def cost_def budget_def)
  have c3: "con_exclusive ?a"
    by (simp add: con_exclusive_def cells_eq grid_defs layout_A_def)
  have c4: "con_adjacent ?a"
    by (simp add: con_adjacent_def cells_eq grid_defs layout_A_def get_neighbors_def Let_def)
  have c5: "con_border ?a"
    by (simp add: con_border_def cells_eq grid_defs layout_A_def)
  have c6: "con_spacing ?a"
    by (simp add: con_spacing_def cells_eq grid_defs layout_A_def close_cells_def M_def)
  have c7: "con_source ?a"
    by (simp add: con_source_def assignment_of_def)
  have "out_flow ?a i - in_flow ?a i = 0" for i
    by (rule symmetric_flow_balanced) (auto simp: assignment_of_def negative_circulation_def)
  then have c8: "con_balance ?a"
    by (simp add: con_balance_def list_all_iff) (simp add: assignment_of_def M_def)
  have "flow ?a k \<le> 1000 * place ?a (fst (fst k), snd (fst k), CHR ''T'')" for k
    using place_nonneg [of layout_A 105 negative_circulation "(fst (fst k), snd (fst k), CHR ''T'')"] p
    by (auto simp: assignment_of_def negative_circulation_def)
  then have c9: "con_gate ?a"
    by (simp add: con_gate_def list_all_iff M_def)
  have "\<not> 0 \<le> flow ?a ((2, 0), (2, 1))"
    using f by simp
  with k have "\<not> list_all (\<lambda>k. 0 \<le> flow ?a k) flow_keys"
    unfolding list_all_iff by blast
  then have n: "\<not> feasible ?a"
    by (simp add: feasible_def var_domains_def)
  from k f p c1 c2 c3 c4 c5 c6 c7 c8 c9 n show ?thesis
    by (simp add: assignment_negative_def M_def)
qed

subsection \<open>Net flow\<close>

lemma sum_list_cells: "sum_list (map f cells) = sum f (set cells)" for f :: "cell \<Rightarrow> real"
  by (rule sum_list_distinct_conv_sum_set [OF distinct_cells])

lemma out_flow_sum:
  "out_flow a i = (\<Sum>j\<in>set cells. if (i, j) \<in> set flow_keys then flow a (i, j) else 0)"
  by (simp add: out_flow_def sum_list_map_filter' sum_list_cells)

lemma in_flow_sum:
  "in_flow a i = (\<Sum>j\<in>set cells. if (j, i) \<in> set flow_keys then flow a (j, i) else 0)"
  by (simp add: in_flow_def sum_list_map_filter' sum_list_cells)

lemma total_out_in: "sum_list (map (out_flow a) cells) = sum_list (map (in_flow a) cells)"
proof -
  have "sum_list (map (out_flow a) cells) =
          (\<Sum>i\<in>set cells. \<Sum>j\<in>set cells. if (i, j) \<in> set flow_keys then flow a (i, j) else 0)"
    by (simp add: sum_list_cells out_flow_sum)
  also have "\<dots> = (\<Sum>j\<in>set cells. \<Sum>i\<in>set cells. if (i, j) \<in> set flow_keys then flow a (i, j) else 0)"
    by (rule sum.swap)
  also have "\<dots> = sum_list (map (in_flow a) cells)"
    by (simp add: sum_list_cells in_flow_sum)
  finally show ?thesis .
qed

lemma total_balance:
  assumes "feasible a"
  shows "sum (flow_balance a) (set cells) = 0"
proof -
  have "sum (flow_balance a) (set cells) = (\<Sum>i\<in>set cells. out_flow a i - in_flow a i)"
    by (rule sum.cong [OF refl]) (rule feasible_balance(1) [OF assms])
  also have "\<dots> = sum (out_flow a) (set cells) - sum (in_flow a) (set cells)"
    by (rule sum_subtractf)
  also have "\<dots> = 0"
    using total_out_in [of a] by (simp add: sum_list_cells)
  finally show ?thesis .
qed

text \<open>
  C3. In a feasible assignment the net flow (outflow minus inflow) of every cell is exactly
  0, whatever its reachability flag: the net flows of all cells sum to 0, each equals its
  \<open>flow_balance\<close> variable, and these variables are not negative.
\<close>

theorem net_flow_zero:
  assumes "feasible a" and "i \<in> set cells"
  shows "out_flow a i - in_flow a i = 0 \<and> flow_balance a i = 0 \<and>
         sum_list (map (\<lambda>i. out_flow a i - in_flow a i) cells) = 0"
proof -
  have "\<forall>i\<in>set cells. flow_balance a i = 0"
    using total_balance [OF assms(1)] feasible_balance(2) [OF assms(1)]
    by (simp add: sum_nonneg_eq_0_iff)
  then have z: "flow_balance a i = 0" using assms(2) by simp
  then have "out_flow a i - in_flow a i = 0"
    using feasible_balance(1) [OF assms] by simp
  moreover have "sum_list (map (\<lambda>i. out_flow a i - in_flow a i) cells) = 0"
    using total_out_in [of a] by (simp add: sum_list_subtractf)
  ultimately show ?thesis using z by simp
qed

theorem net_flow_zero_witness:
  "feasible assignment_A \<and> (2, 0) \<in> set cells \<and> reachable assignment_A (2, 0) = 0 \<and>
   reachable assignment_A (0, 0) = 1 \<and> (0, 0) \<in> set cells \<and>
   out_flow assignment_A (2, 0) - in_flow assignment_A (2, 0) = 0 \<and>
   out_flow assignment_A (0, 0) - in_flow assignment_A (0, 0) = 0 \<and>
   flow_balance assignment_A (0, 0) = 0"
proof -
  have c: "(2, 0) \<in> set cells" "(0, 0) \<in> set cells"
    by (simp_all add: set_cells rows_def cols_def)
  have r: "reachable assignment_A (2, 0) = 0" "reachable assignment_A (0, 0) = 1"
    by (simp_all add: assignment_A_def assignment_of_def source_def)
  from net_flow_zero [OF feasible_A c(1)] net_flow_zero [OF feasible_A c(2)] feasible_A c r
  show ?thesis by blast
qed

subsection \<open>Connectivity\<close>

lemma island_reach:
  "taxi_connected assignment_island c \<Longrightarrow> c = (0, 0) \<or> c = (0, 1) \<or> c = (1, 0)"
proof (induction rule: taxi_connected.induct)
  case at_source
  then show ?case by (simp add: source_def)
next
  case (along i j)
  from along.IH show ?case
  proof (elim disjE)
    assume "i = (0, 0)"
    with along.hyps(3) show ?thesis
      by (auto simp: mem_get_neighbors rows_def cols_def)
  next
    assume i: "i = (0, 1)"
    have "place assignment_island (0, 1, CHR ''T'') = 0"
      by (simp add: assignment_island_def grid_defs layout_island_def)
    with along.hyps(2) i show ?thesis by (simp add: source_def)
  next
    assume i: "i = (1, 0)"
    have "place assignment_island (1, 0, CHR ''T'') = 0"
      by (simp add: assignment_island_def grid_defs layout_island_def)
    with along.hyps(2) i show ?thesis by (simp add: source_def)
  qed
qed

lemma A_reach:
  "taxi_connected assignment_A c \<Longrightarrow>
     c = (0, 0) \<or> c = (0, 1) \<or> c = (1, 0) \<or> c = (0, 2) \<or> c = (1, 1)"
proof (induction rule: taxi_connected.induct)
  case at_source
  then show ?case by (simp add: source_def)
next
  case (along i j)
  have S: "place assignment_A (1, 0, CHR ''T'') = 0" "place assignment_A (0, 2, CHR ''T'') = 0"
    "place assignment_A (1, 1, CHR ''T'') = 0"
    by (simp_all add: assignment_A_def grid_defs layout_A_def)
  from along.IH show ?case
  proof (elim disjE)
    assume "i = (0, 0)"
    with along.hyps(3) show ?thesis
      by (auto simp: mem_get_neighbors rows_def cols_def)
  next
    assume "i = (0, 1)"
    with along.hyps(3) show ?thesis
      by (auto simp: mem_get_neighbors rows_def cols_def)
  next
    assume "i = (1, 0)"
    with along.hyps(2) S show ?thesis by (simp add: source_def)
  next
    assume "i = (0, 2)"
    with along.hyps(2) S show ?thesis by (simp add: source_def)
  next
    assume "i = (1, 1)"
    with along.hyps(2) S show ?thesis by (simp add: source_def)
  qed
qed

text \<open>
  C1 fails on the code. The assignment with a stand, a taxiway and a pad in the corner
  opposite to the source and nothing else satisfies every domain and every constraint, and
  none of its three occupied cells is connected to the source through taxiways. The same
  holds of an assignment that reaches 105 operations, the most any feasible assignment has:
  its taxiway at \<open>(2, 3)\<close> and its pad at \<open>(4, 6)\<close> are cut off from the source.
\<close>

theorem feasible_not_connected:
  "feasible assignment_island \<and>
   place assignment_island (4, 5, CHR ''S'') = 1 \<and>
   place assignment_island (4, 6, CHR ''T'') = 1 \<and>
   place assignment_island (4, 7, CHR ''F'') = 1 \<and>
   \<not> taxi_connected assignment_island (4, 5) \<and>
   \<not> taxi_connected assignment_island (4, 6) \<and>
   \<not> taxi_connected assignment_island (4, 7) \<and>
   feasible assignment_A \<and> operations assignment_A = 105 \<and>
   place assignment_A (2, 3, CHR ''T'') = 1 \<and> \<not> taxi_connected assignment_A (2, 3) \<and>
   place assignment_A (4, 6, CHR ''F'') = 1 \<and> \<not> taxi_connected assignment_A (4, 6)"
proof -
  have "place assignment_island (4, 5, CHR ''S'') = 1 \<and>
   place assignment_island (4, 6, CHR ''T'') = 1 \<and>
   place assignment_island (4, 7, CHR ''F'') = 1"
    by (simp add: assignment_island_def grid_defs layout_island_def)
  moreover have "\<not> taxi_connected assignment_island (4, 5)"
    "\<not> taxi_connected assignment_island (4, 6)" "\<not> taxi_connected assignment_island (4, 7)"
    using island_reach by fastforce+
  moreover have "operations assignment_A = 105 \<and> place assignment_A (2, 3, CHR ''T'') = 1 \<and>
    place assignment_A (4, 6, CHR ''F'') = 1"
    by (simp add: assignment_A_def grid_defs layout_A_def)
  moreover have "\<not> taxi_connected assignment_A (2, 3)" "\<not> taxi_connected assignment_A (4, 6)"
    using A_reach by fastforce+
  ultimately show ?thesis using feasible_island feasible_A by simp
qed

subsection \<open>A status other than optimal\<close>

text \<open>
  C9, as the code has it. With a status other than \<open>GRB.OPTIMAL\<close> the script produces no
  layout and nothing else: it prints nothing and writes no file, whatever the status is.
\<close>

theorem silent_unless_optimal: "status \<noteq> GRB_OPTIMAL \<Longrightarrow> main status a = []"
  by (simp add: main_def)

theorem silent_unless_optimal_witness:
  "GRB_INFEASIBLE \<noteq> GRB_OPTIMAL \<and> main GRB_INFEASIBLE assignment_A = []"
proof -
  have n: "GRB_INFEASIBLE \<noteq> GRB_OPTIMAL"
    by (simp add: GRB_INFEASIBLE_def GRB_OPTIMAL_def)
  from silent_unless_optimal [OF n, of assignment_A] n show ?thesis by simp
qed

text \<open>
  C9, as the claim has it, fails: an infeasible model, an unbounded one and one that ran
  out of time are three different statuses, and the script does the same, nothing, in
  all three; no failure kind reaches a caller.
\<close>

theorem failure_kind_not_signalled:
  "GRB_INFEASIBLE \<noteq> GRB_TIME_LIMIT \<and> GRB_INFEASIBLE \<noteq> GRB_UNBOUNDED \<and>
   GRB_UNBOUNDED \<noteq> GRB_TIME_LIMIT \<and>
   main GRB_INFEASIBLE assignment_A = main GRB_TIME_LIMIT assignment_A \<and>
   main GRB_INFEASIBLE assignment_A = main GRB_UNBOUNDED assignment_A \<and>
   main GRB_INFEASIBLE assignment_A = []"
  by (simp add: main_def GRB_INFEASIBLE_def GRB_OPTIMAL_def GRB_TIME_LIMIT_def GRB_UNBOUNDED_def)

subsection \<open>The optimum\<close>














end
